theory Spec2Isabelle
  imports Complex_Main "HOL-Library.Word"
begin

section \<open>Bytes and JSON values\<close>

type_synonym byte = "8 word"

text \<open>
  A value produced by \<^verbatim>\<open>JSON.parse\<close>. Numbers are kept exact (every finite double is a
  rational); an object keeps its members in textual order.
\<close>

datatype json =
    JNull
  | JBool bool
  | JNumber rat
  | JString string
  | JArray "json list"
  | JObject "(string \<times> json) list"

text \<open>
  Reading a property \<^verbatim>\<open>v.k\<close>: \<open>None\<close> is JavaScript's \<^verbatim>\<open>undefined\<close>. Of a repeated
  member \<^verbatim>\<open>JSON.parse\<close> keeps the last. Only the keys the components read
  (\<^verbatim>\<open>detail\<close>, \<^verbatim>\<open>stats\<close>, \<^verbatim>\<open>total_files\<close>, \<^verbatim>\<open>size_reduction\<close>) are looked up, and
  none of them is a property of a number, string, boolean or array. Reading a property
  of \<^verbatim>\<open>null\<close> throws; where the code can do that, the caller tests for \<open>JNull\<close> first.
\<close>

fun get_prop :: "json \<Rightarrow> string \<Rightarrow> json option" where
  "get_prop (JObject kvs) k = map_of (rev kvs) k"
| "get_prop JNull k = None"
| "get_prop (JBool b) k = None"
| "get_prop (JNumber n) k = None"
| "get_prop (JString s) k = None"
| "get_prop (JArray xs) k = None"

text \<open>JavaScript truthiness of a parsed JSON value.\<close>

fun truthy :: "json \<Rightarrow> bool" where
  "truthy JNull = False"
| "truthy (JBool b) = b"
| "truthy (JNumber n) = (n \<noteq> 0)"
| "truthy (JString s) = (s \<noteq> [])"
| "truthy (JArray xs) = True"
| "truthy (JObject kvs) = True"

section \<open>Dashboard.tsx: the upload flow\<close>

text \<open>
  \<^verbatim>\<open>verifyZipFile\<close>: a blob shorter than 4 bytes is refused; otherwise the first four bytes
  are read into a \<^verbatim>\<open>Uint8Array\<close> and the first two compared with \<^verbatim>\<open>0x50 0x4B\<close>. The
  blob is in memory, so the read of its first bytes is taken to succeed.
\<close>

definition verifyZipFile :: "byte list \<Rightarrow> bool" where
  "verifyZipFile blob =
     (if length blob < 4 then False
      else (let arr = take 4 blob in arr ! 0 = 0x50 \<and> arr ! 1 = 0x4B))"

text \<open>
  The state \<^verbatim>\<open>handleFileUpload\<close> writes. The object URL of \<^verbatim>\<open>download_url\<close> is modelled by
  the blob it refers to; \<^verbatim>\<open>report\<close> is \<open>JNull\<close> for JavaScript's \<^verbatim>\<open>null\<close>.
\<close>

record OptimizationResult =
  download_url :: "byte list"
  report :: json
  message :: string

record DashboardState =
  isProcessing :: bool
  progress :: nat
  result :: "OptimizationResult option"
  error :: "string option"

text \<open>
  What \<^verbatim>\<open>fetch\<close> delivers: a rejection carrying an \<^verbatim>\<open>Error\<close> message, or a response.
  \<open>error_body\<close> is what \<^verbatim>\<open>response.json()\<close> resolves to (\<open>None\<close> when it rejects, which
  the code turns into \<^verbatim>\<open>{}\<close>); \<open>x_optimization_report\<close> is the
  \<^verbatim>\<open>X-Optimization-Report\<close> header.
\<close>

record http_response =
  ok :: bool
  error_body :: "json option"
  blob :: "byte list"
  x_optimization_report :: "string option"

datatype fetch_outcome = Rejected string | Response http_response

text \<open>
  What the JavaScript runtime supplies: \<^verbatim>\<open>JSON.parse\<close> (\<open>Inl\<close> the message of its
  \<^verbatim>\<open>SyntaxError\<close>), the conversion to a string that \<^verbatim>\<open>new Error(v)\<close> applies to a
  value that is not a string, and the message of the \<^verbatim>\<open>TypeError\<close> thrown when
  \<^verbatim>\<open>detail\<close> is read of \<^verbatim>\<open>null\<close>.
\<close>

record js_runtime =
  JSON_parse :: "string \<Rightarrow> string + json"
  to_text :: "json \<Rightarrow> string"
  null_read_error :: string

text \<open>The message of \<^verbatim>\<open>new Error(v)\<close>.\<close>

definition error_message :: "js_runtime \<Rightarrow> json \<Rightarrow> string" where
  "error_message js v = (case v of JString s \<Rightarrow> s | _ \<Rightarrow> to_text js v)"

text \<open>
  The message thrown for a response that is not ok:
  \<^verbatim>\<open>const error = await response.json().catch(() => ({}));
  throw new Error(error.detail || 'Upload failed');\<close>
\<close>

definition refusal_message :: "js_runtime \<Rightarrow> json option \<Rightarrow> string" where
  "refusal_message js body =
     (case body of
        None \<Rightarrow> ''Upload failed''
      | Some b \<Rightarrow>
          if b = JNull then null_read_error js
          else (case get_prop b ''detail'' of
                  None \<Rightarrow> ''Upload failed''
                | Some d \<Rightarrow> if truthy d then error_message js d else ''Upload failed''))"

text \<open>
  \<^verbatim>\<open>handleFileUpload\<close>. The \<^verbatim>\<open>try\<close> block throws on a response that is not ok, on a blob
  that fails \<^verbatim>\<open>verifyZipFile\<close> and on a report header \<^verbatim>\<open>JSON.parse\<close> refuses; the
  \<^verbatim>\<open>catch\<close> stores the message in \<^verbatim>\<open>error\<close>; \<^verbatim>\<open>finally\<close> clears \<^verbatim>\<open>isProcessing\<close>.
\<close>

definition handleFileUpload ::
  "js_runtime \<Rightarrow> DashboardState \<Rightarrow> fetch_outcome \<Rightarrow> DashboardState" where
  "handleFileUpload js st outcome =
     (let st1 = st\<lparr>isProcessing := True, progress := 0, result := None, error := None\<rparr>;
          failed = (\<lambda>msg. st1\<lparr>error := Some msg, isProcessing := False\<rparr>);
          finished = (\<lambda>b rep. st1\<lparr>result := Some \<lparr>download_url = b, report = rep,
                                 message = ''Optimization complete!''\<rparr>,
                               isProcessing := False\<rparr>)
      in case outcome of
           Rejected msg \<Rightarrow> failed msg
         | Response r \<Rightarrow>
             if \<not> ok r then failed (refusal_message js (error_body r))
             else if \<not> verifyZipFile (blob r) then
               failed ''Invalid ZIP file received from server''
             else
               (case x_optimization_report r of
                  None \<Rightarrow> finished (blob r) JNull
                | Some h \<Rightarrow>
                    if h = [] then finished (blob r) JNull
                    else (case JSON_parse js h of
                            Inl msg \<Rightarrow> failed msg
                          | Inr rep \<Rightarrow> finished (blob r) rep)))"

text \<open>The download link is rendered inside \<^verbatim>\<open>{result && (...)}\<close>.\<close>

definition downloadOffered :: "DashboardState \<Rightarrow> bool" where
  "downloadOffered st = (result st \<noteq> None)"

section \<open>Dashboard.tsx: how the report is read\<close>

text \<open>\<^verbatim>\<open>result.report.stats?.k\<close>: \<^verbatim>\<open>undefined\<close> when \<^verbatim>\<open>stats\<close> is missing or null.\<close>

definition stats_field :: "json \<Rightarrow> string \<Rightarrow> json option" where
  "stats_field rep k =
     (case get_prop rep ''stats'' of
        None \<Rightarrow> None
      | Some s \<Rightarrow> if s = JNull then None else get_prop s k)"

text \<open>
  What a cell of the results grid hands to React: a JSON value as it is, a fixed text, a
  number formatted by \<^verbatim>\<open>toFixed(2)\<close> and followed by \<^verbatim>\<open>%\<close> (the formatting itself is
  left abstract), or the \<^verbatim>\<open>TypeError\<close> of calling \<^verbatim>\<open>toFixed\<close> on a value that has none.
\<close>

datatype cell = Shown json | Text string | Fixed2Percent rat | RenderError

text \<open>\<^verbatim>\<open>{result.report.stats?.total_files || 'N/A'}\<close>\<close>

definition filesProcessedCell :: "json \<Rightarrow> cell" where
  "filesProcessedCell rep =
     (case stats_field rep ''total_files'' of
        None \<Rightarrow> Text ''N/A''
      | Some v \<Rightarrow> if truthy v then Shown v else Text ''N/A'')"

text \<open>
  \<^verbatim>\<open>{result.report.stats?.size_reduction
      ? `${result.report.stats.size_reduction.toFixed(2)}%` : 'N/A'}\<close>
\<close>

definition sizeReductionCell :: "json \<Rightarrow> cell" where
  "sizeReductionCell rep =
     (case stats_field rep ''size_reduction'' of
        None \<Rightarrow> Text ''N/A''
      | Some v \<Rightarrow>
          if truthy v then (case v of JNumber n \<Rightarrow> Fixed2Percent n | _ \<Rightarrow> RenderError)
          else Text ''N/A'')"

text \<open>The grid is rendered inside \<^verbatim>\<open>{result.report && (...)}\<close>.\<close>

definition reportView :: "json \<Rightarrow> (cell \<times> cell) option" where
  "reportView rep =
     (if truthy rep then Some (filesProcessedCell rep, sizeReductionCell rep) else None)"

section \<open>FileUpload.tsx\<close>

record File =
  name :: string
  file_size :: nat
  mime_type :: string

text \<open>
  \<^verbatim>\<open>onDrop\<close> takes the first accepted file, if there is one, appends it to
  \<^verbatim>\<open>uploadedFiles\<close> and hands it to \<^verbatim>\<open>onFileUpload\<close>. The result is the new
  \<^verbatim>\<open>uploadedFiles\<close> and the list of calls made to \<^verbatim>\<open>onFileUpload\<close>.
\<close>

definition onDrop :: "File list \<Rightarrow> File list \<Rightarrow> File list \<times> File list" where
  "onDrop uploadedFiles acceptedFiles =
     (case acceptedFiles of
        [] \<Rightarrow> (uploadedFiles, [])
      | file # rest \<Rightarrow> (uploadedFiles @ [file], [file]))"

text \<open>\<^verbatim>\<open>removeFile\<close> drops the entry at \<open>index\<close>.\<close>

definition removeFile :: "File list \<Rightarrow> nat \<Rightarrow> File list" where
  "removeFile uploadedFiles index =
     map snd (filter (\<lambda>(i, f). i \<noteq> index) (zip [0..<length uploadedFiles] uploadedFiles))"

text \<open>The options object passed to \<^verbatim>\<open>useDropzone\<close>.\<close>

record dropzone_options =
  accept :: "(string \<times> string list) list"
  maxSize :: nat
  multiple :: bool

definition dropzoneOptions :: dropzone_options where
  "dropzoneOptions =
     \<lparr>accept = [(''application/zip'', [''.zip'']),
                (''application/x-zip-compressed'', [''.zip''])],
      maxSize = 100 * 1024 * 1024,
      multiple = False\<rparr>"

section \<open>The optimization pipeline\<close>

text \<open>
  Modelled from the spec: the backend that unpacks, optimizes and repackages an archive
  (the service behind \<^verbatim>\<open>/optimize/upload\<close>) is missing from the sources; only its
  requirements, its container file and the frontend calling it are there. Every
  definition of this section follows sections 3 to 7 of the specification. The
  transforms themselves, the content sniffer and the archive codec are library calls and
  stay parameters.
\<close>

subsection \<open>Data model\<close>

datatype pipeline_error =
    CorruptArchive
  | ArchiveTooLarge
  | EmptyArchive
  | UnsafePath
  | SourceFetchFailed
  | Timeout
  | InternalFault

text \<open>
  \<open>InternalFault\<close> is not in the specification's taxonomy: it is where an arithmetic
  fault of the aggregator (a division by zero) would surface.
\<close>

record SourceFile =
  path :: string
  bytes :: "byte list"
  declaredType :: "string option"

datatype FileCategory = HTML | CSS | SCSS | JavaScript | TypeScript | Image | Other

datatype status = Success | Skipped | Failed

record TransformOutcome =
  outcome_path :: string
  category :: FileCategory
  originalSize :: nat
  optimizedSize :: nat
  status :: status
  errorDetail :: "string option"
  outputBytes :: "byte list"

record category_stats =
  count :: nat
  originalBytes :: nat
  optimizedBytes :: nat

text \<open>
  The report. \<open>filesSkipped\<close> is the count the invariant
  \<open>filesOptimized + filesFailed + filesSkipped = totalFiles\<close> names. The percentage is an
  exact rational: the rounding of a floating-point representation is not modelled.
\<close>

record OptimizationReport =
  totalFiles :: nat
  filesOptimized :: nat
  filesFailed :: nat
  filesSkipped :: nat
  totalOriginalBytes :: nat
  totalOptimizedBytes :: nat
  sizeReductionPercent :: rat
  perCategoryStats :: "FileCategory \<Rightarrow> category_stats"
  failures :: "(string \<times> string option) list"

text \<open>
  The configuration. The ceiling of the deployed service is the \<^verbatim>\<open>MAX_FILE_SIZE\<close> of its
  container file, 52428800 bytes.
\<close>

record config =
  max_archive_bytes :: nat

definition default_config :: config where
  "default_config = \<lparr>max_archive_bytes = 52428800\<rparr>"

text \<open>
  One invocation of a transform: what it returned (output bytes, status, error detail),
  or that it ran over the per-file time budget.
\<close>

datatype invocation = Returned "byte list" status "string option" | OverBudget

text \<open>
  The pluggable parts: the registry's transform for a category, the magic-byte sniffer
  with the length of the prefix it may inspect, and the image extensions.
\<close>

record plugins =
  optimize :: "FileCategory \<Rightarrow> byte list \<Rightarrow> invocation"
  sniff :: "byte list \<Rightarrow> FileCategory option"
  sniff_prefix_length :: nat
  image_extensions :: "string list"

subsection \<open>Archive Reader\<close>

text \<open>
  The decoded archive: an unreadable stream, or the entries of its directory listing in
  order.
\<close>

record ArchiveEntry =
  entry_path :: string
  is_directory :: bool
  content :: "byte list"
  declared :: "string option"

datatype archive_stream = Unreadable | Listing "ArchiveEntry list"

fun segments :: "string \<Rightarrow> string list" where
  "segments [] = [[]]"
| "segments (c # cs) =
     (if c = CHR ''/'' then [] # segments cs
      else (case segments cs of [] \<Rightarrow> [[c]] | s # ss \<Rightarrow> (c # s) # ss))"

text \<open>Walking the segments of a path from depth \<open>depth\<close> below the root.\<close>

fun climbs_out :: "nat \<Rightarrow> string list \<Rightarrow> bool" where
  "climbs_out depth [] = False"
| "climbs_out depth (s # ss) =
     (if s = ''..'' then (case depth of 0 \<Rightarrow> True | Suc d \<Rightarrow> climbs_out d ss)
      else if s = [] \<or> s = ''.'' then climbs_out depth ss
      else climbs_out (Suc depth) ss)"

definition escapes_root :: "string \<Rightarrow> bool" where
  "escapes_root p = (take 1 p = ''/'' \<or> climbs_out 0 (segments p))"

definition cumulative_size :: "ArchiveEntry list \<Rightarrow> nat" where
  "cumulative_size es = sum_list (map (\<lambda>e. length (content e)) es)"

definition to_source :: "ArchiveEntry \<Rightarrow> SourceFile" where
  "to_source e = \<lparr>path = entry_path e, bytes = content e, declaredType = declared e\<rparr>"

text \<open>
  Modelled from the spec: the Archive Reader (section 4.1), which is missing from the
  sources. Its failures are an unreadable stream, a cumulative size over the ceiling, an
  entry whose path leaves the root, and no regular file at all; directory entries are
  skipped. The specification does not say which failure wins when several apply; they
  are tested here in the order it lists them, and nothing proved below depends on that
  order.
\<close>

definition read_archive :: "config \<Rightarrow> archive_stream \<Rightarrow> pipeline_error + SourceFile list" where
  "read_archive cfg stream =
     (case stream of
        Unreadable \<Rightarrow> Inl CorruptArchive
      | Listing es \<Rightarrow>
          if max_archive_bytes cfg < cumulative_size es then Inl ArchiveTooLarge
          else if list_ex (\<lambda>e. escapes_root (entry_path e)) es then Inl UnsafePath
          else (let regular = filter (\<lambda>e. \<not> is_directory e) es
                in if regular = [] then Inl EmptyArchive else Inr (map to_source regular)))"

subsection \<open>Type Classifier\<close>

text \<open>
  Modelled from the spec: the classifier (section 4.2), which is missing from the
  sources. The extension decides first, then the sniffer on a bounded prefix of the
  content, and \<open>Other\<close> is what remains.
\<close>

definition ends_with :: "string \<Rightarrow> string \<Rightarrow> bool" where
  "ends_with ext p = (length ext \<le> length p \<and> drop (length p - length ext) p = ext)"

definition classify :: "plugins \<Rightarrow> string \<Rightarrow> byte list \<Rightarrow> FileCategory" where
  "classify env p prefix =
     (if ends_with ''.html'' p \<or> ends_with ''.htm'' p then HTML
      else if ends_with ''.css'' p then CSS
      else if ends_with ''.scss'' p then SCSS
      else if ends_with ''.js'' p \<or> ends_with ''.jsx'' p then JavaScript
      else if ends_with ''.ts'' p \<or> ends_with ''.tsx'' p then TypeScript
      else if list_ex (\<lambda>ext. ends_with ext p) (image_extensions env) then Image
      else (case sniff env prefix of Some c \<Rightarrow> c | None \<Rightarrow> Other))"

definition category_of :: "plugins \<Rightarrow> SourceFile \<Rightarrow> FileCategory" where
  "category_of env f = classify env (path f) (take (sniff_prefix_length env) (bytes f))"

subsection \<open>Transform Registry: one file through its transform\<close>

text \<open>
  An outcome that keeps the original bytes: what a skipped, failed or timed-out file
  contributes to the output archive.
\<close>

definition passthrough ::
  "SourceFile \<Rightarrow> FileCategory \<Rightarrow> status \<Rightarrow> string option \<Rightarrow> TransformOutcome" where
  "passthrough f c st detail =
     \<lparr>outcome_path = path f, category = c, originalSize = length (bytes f),
      optimizedSize = length (bytes f), status = st, errorDetail = detail,
      outputBytes = bytes f\<rparr>"

text \<open>
  Modelled from the spec: the registry's uniform contract (section 4.3), whose code is
  missing from the sources. \<open>Other\<close> is always skipped. A transform over its time
  budget is a failure with detail \<open>Timeout\<close>. Only a success replaces the bytes, and
  \<open>optimizedSize\<close> is the length of the bytes emitted.
\<close>

definition process_file :: "plugins \<Rightarrow> SourceFile \<Rightarrow> TransformOutcome" where
  "process_file env f =
     (let c = category_of env f in
      if c = Other then passthrough f c Skipped None
      else (case optimize env c (bytes f) of
              OverBudget \<Rightarrow> passthrough f c Failed (Some ''Timeout'')
            | Returned out st detail \<Rightarrow>
                (case st of
                   Success \<Rightarrow>
                     \<lparr>outcome_path = path f, category = c, originalSize = length (bytes f),
                      optimizedSize = length out, status = Success, errorDetail = None,
                      outputBytes = out\<rparr>
                 | Skipped \<Rightarrow> passthrough f c Skipped None
                 | Failed \<Rightarrow> passthrough f c Failed detail)))"

subsection \<open>Stats Aggregator\<close>

text \<open>
  Modelled from the spec: the aggregator (section 4.5), which is missing from the
  sources. Division is as the machine has it: dividing by zero is a fault, not a value.
\<close>

definition checked_div :: "rat \<Rightarrow> rat \<Rightarrow> rat option" where
  "checked_div a b = (if b = 0 then None else Some (a / b))"

definition reduction_percent :: "nat \<Rightarrow> nat \<Rightarrow> rat option" where
  "reduction_percent original optimized =
     (if original = 0 then Some 0
      else map_option (\<lambda>q. q * 100)
             (checked_div (rat_of_nat original - rat_of_nat optimized) (rat_of_nat original)))"

definition empty_report :: OptimizationReport where
  "empty_report =
     \<lparr>totalFiles = 0, filesOptimized = 0, filesFailed = 0, filesSkipped = 0,
      totalOriginalBytes = 0, totalOptimizedBytes = 0, sizeReductionPercent = 0,
      perCategoryStats = (\<lambda>c. \<lparr>count = 0, originalBytes = 0, optimizedBytes = 0\<rparr>),
      failures = []\<rparr>"

definition add_outcome :: "OptimizationReport \<Rightarrow> TransformOutcome \<Rightarrow> OptimizationReport" where
  "add_outcome r out =
     r\<lparr>totalFiles := totalFiles r + 1,
       filesOptimized := filesOptimized r + (if status out = Success then 1 else 0),
       filesFailed := filesFailed r + (if status out = Failed then 1 else 0),
       filesSkipped := filesSkipped r + (if status out = Skipped then 1 else 0),
       totalOriginalBytes := totalOriginalBytes r + originalSize out,
       totalOptimizedBytes := totalOptimizedBytes r + optimizedSize out,
       perCategoryStats := (perCategoryStats r)
         (category out :=
            \<lparr>count = count (perCategoryStats r (category out)) + 1,
             originalBytes = originalBytes (perCategoryStats r (category out)) + originalSize out,
             optimizedBytes = optimizedBytes (perCategoryStats r (category out)) + optimizedSize out\<rparr>),
       failures := failures r @
         (if status out = Failed then [(outcome_path out, errorDetail out)] else [])\<rparr>"

text \<open>The single pass over the outcomes, then the percentage, computed once.\<close>

definition finalize :: "OptimizationReport \<Rightarrow> OptimizationReport option" where
  "finalize r =
     map_option (\<lambda>p. r\<lparr>sizeReductionPercent := p\<rparr>)
       (reduction_percent (totalOriginalBytes r) (totalOptimizedBytes r))"

definition aggregate :: "TransformOutcome list \<Rightarrow> OptimizationReport option" where
  "aggregate outcomes = finalize (foldl add_outcome empty_report outcomes)"

subsection \<open>Archive Writer\<close>

text \<open>
  Modelled from the spec: the Archive Writer (section 4.6), which is missing from the
  sources. The output archive is kept as its entries in order; the byte encoding of the
  container is the codec's. Outcomes arrive tagged with the position of their file in
  the input listing and are put back into that order.
\<close>

definition in_archive_order :: "(nat \<times> TransformOutcome) list \<Rightarrow> TransformOutcome list" where
  "in_archive_order tagged = map snd (sort_key fst tagged)"

definition write_archive :: "TransformOutcome list \<Rightarrow> (string \<times> byte list) list" where
  "write_archive outcomes = map (\<lambda>out. (outcome_path out, outputBytes out)) outcomes"

subsection \<open>Pipeline Orchestrator\<close>

datatype batch_state = Pending | Running | Completed | Aborted

text \<open>
  Modelled from the spec: the orchestrator's batch (sections 4.4 and 5), which is
  missing from the sources. The worker pool is abstracted to the order in which it
  finishes its tasks. What happens to a running batch: the task of the file at a
  position of the listing completes, or the wall-clock budget runs out. Time itself is
  not modelled: the budget's expiry is an event.
\<close>

datatype event = TaskDone nat | DeadlineExceeded

record batch =
  phase :: batch_state
  files :: "SourceFile list"
  collected :: "(nat \<times> TransformOutcome) list"
  fault :: "pipeline_error option"

definition pending_batch :: batch where
  "pending_batch = \<lparr>phase = Pending, files = [], collected = [], fault = None\<rparr>"

text \<open>
  Admission. A listing over the ceiling aborts the batch, any other failure of the
  Reader leaves it pending with its error, and otherwise the batch runs. Which state a
  failure of the Reader leaves behind is a choice of this model; a batch that did not
  run delivers its error either way.
\<close>

definition start :: "config \<Rightarrow> archive_stream \<Rightarrow> batch \<Rightarrow> batch" where
  "start cfg stream b =
     (case read_archive cfg stream of
        Inl e \<Rightarrow> b\<lparr>phase := (if e = ArchiveTooLarge then Aborted else Pending), fault := Some e\<rparr>
      | Inr fs \<Rightarrow> b\<lparr>phase := Running, files := fs\<rparr>)"

text \<open>
  One event. Only a running batch reacts. A completion is collected once per file, by a
  single collector; when every file has its outcome the batch is complete, whatever the
  outcomes are. The deadline aborts.
\<close>

definition step :: "plugins \<Rightarrow> batch \<Rightarrow> event \<Rightarrow> batch" where
  "step env b ev =
     (if phase b \<noteq> Running then b
      else (case ev of
              DeadlineExceeded \<Rightarrow> b\<lparr>phase := Aborted, fault := Some Timeout\<rparr>
            | TaskDone i \<Rightarrow>
                if i < length (files b) \<and> i \<notin> set (map fst (collected b)) then
                  (let c = collected b @ [(i, process_file env (files b ! i))]
                   in b\<lparr>collected := c,
                        phase := (if length c = length (files b) then Completed else Running)\<rparr>)
                else b))"

definition run :: "config \<Rightarrow> plugins \<Rightarrow> event list \<Rightarrow> archive_stream \<Rightarrow> batch" where
  "run cfg env events stream = foldl (step env) (start cfg stream pending_batch) events"

text \<open>
  What the caller receives: nothing while the batch runs, the single error of a rejected
  or aborted batch, or the output archive with its report.
\<close>

definition deliver ::
  "batch \<Rightarrow> (pipeline_error + (string \<times> byte list) list \<times> OptimizationReport) option" where
  "deliver b =
     (case phase b of
        Running \<Rightarrow> None
      | Completed \<Rightarrow>
          (let outcomes = in_archive_order (collected b)
           in case aggregate outcomes of
                None \<Rightarrow> Some (Inl InternalFault)
              | Some rep \<Rightarrow> Some (Inr (write_archive outcomes, rep)))
      | Pending \<Rightarrow> map_option Inl (fault b)
      | Aborted \<Rightarrow> map_option Inl (fault b))"

definition optimize_archive ::
  "config \<Rightarrow> plugins \<Rightarrow> event list \<Rightarrow> archive_stream \<Rightarrow>
   (pipeline_error + (string \<times> byte list) list \<times> OptimizationReport) option" where
  "optimize_archive cfg env events stream = deliver (run cfg env events stream)"

text \<open>
  The collector's invariant: no position is collected twice, every collected outcome is
  the outcome of the file at its position, a completed batch has them all, a running one
  has not, and a batch that never ran or was aborted carries its error.
\<close>

definition well_collected :: "plugins \<Rightarrow> batch \<Rightarrow> bool" where
  "well_collected env b \<longleftrightarrow>
     distinct (map fst (collected b)) \<and>
     (\<forall>(i, out) \<in> set (collected b). i < length (files b) \<and> out = process_file env (files b ! i)) \<and>
     (phase b = Completed \<longrightarrow> length (collected b) = length (files b)) \<and>
     (phase b = Running \<longrightarrow> length (collected b) < length (files b) \<and> fault b = None) \<and>
     (phase b = Pending \<or> phase b = Aborted \<longrightarrow> fault b \<noteq> None)"

subsection \<open>A sample batch\<close>

text \<open>
  Stand-ins for the library transforms: SCSS fails to compile, every other transform
  strips the spaces. The archive holds a directory entry, a CSS file, a malformed SCSS
  file and a file of no known type.
\<close>

definition sample_plugins :: plugins where
  "sample_plugins =
     \<lparr>optimize = (\<lambda>c b. if c = SCSS then Returned [] Failed (Some ''compile error'')
                         else Returned (filter (\<lambda>x. x \<noteq> 0x20) b) Success None),
      sniff = (\<lambda>b. None), sniff_prefix_length = 8, image_extensions = [''.png'']\<rparr>"

definition sample_archive :: archive_stream where
  "sample_archive = Listing
     [\<lparr>entry_path = ''css/'', is_directory = True, content = [], declared = None\<rparr>,
      \<lparr>entry_path = ''css/a.css'', is_directory = False,
        content = [0x61, 0x20, 0x7B, 0x20, 0x7D], declared = None\<rparr>,
      \<lparr>entry_path = ''b.scss'', is_directory = False, content = [0x7B, 0x20], declared = None\<rparr>,
      \<lparr>entry_path = ''README'', is_directory = False, content = [0x20, 0x20, 0x41],
        declared = None\<rparr>]"

section \<open>A sample runtime\<close>

text \<open>
  A runtime whose \<^verbatim>\<open>JSON.parse\<close> knows one report text and refuses every other.
\<close>

definition sample_runtime :: js_runtime where
  \<open>sample_runtime =
     \<lparr>JSON_parse =
        (\<lambda>s. if s = ''{"stats":{"total_files":7,"size_reduction":25}}''
             then Inr (JObject [(''stats'', JObject [(''total_files'', JNumber 7),
                                                     (''size_reduction'', JNumber 25)])])
             else Inl ''SyntaxError''),
      to_text = (\<lambda>v. ''[object Object]''),
      null_read_error = ''Cannot read properties of null''\<rparr>\<close>

section \<open>Properties of the upload flow\<close>

lemma verifyZipFile_iff:
  "verifyZipFile b \<longleftrightarrow> 4 \<le> length b \<and> b ! 0 = 0x50 \<and> b ! 1 = 0x4B"
  by (auto simp: verifyZipFile_def Let_def)

text \<open>
  C9. A response blob becomes the result only when it is at least 4 bytes long and starts
  with the bytes \<^verbatim>\<open>0x50 0x4B\<close>. For a received blob that fails the check the upload ends
  with the error \<^verbatim>\<open>Invalid ZIP file received from server\<close>, a null result and no download.
\<close>

theorem upload_accepts_only_pk_blobs:
  "(result (handleFileUpload js st outcome) \<noteq> None \<longrightarrow>
      (\<exists>r. outcome = Response r \<and> ok r \<and> 4 \<le> length (blob r) \<and>
           blob r ! 0 = 0x50 \<and> blob r ! 1 = 0x4B)) \<and>
   (\<forall>r. outcome = Response r \<and> ok r \<and>
        \<not> (4 \<le> length (blob r) \<and> blob r ! 0 = 0x50 \<and> blob r ! 1 = 0x4B) \<longrightarrow>
        error (handleFileUpload js st outcome) = Some ''Invalid ZIP file received from server'' \<and>
        result (handleFileUpload js st outcome) = None \<and>
        \<not> downloadOffered (handleFileUpload js st outcome))"
  by (auto simp: handleFileUpload_def Let_def downloadOffered_def verifyZipFile_iff
           split: fetch_outcome.splits option.splits sum.splits if_splits)

theorem upload_accepts_only_pk_blobs_witness:
  "error (handleFileUpload sample_runtime
            \<lparr>isProcessing = False, progress = 0, result = None, error = None\<rparr>
            (Response \<lparr>ok = True, error_body = None, blob = [0x3C, 0x68, 0x74, 0x6D, 0x6C],
                       x_optimization_report = None\<rparr>))
     = Some ''Invalid ZIP file received from server'' \<and>
   result (handleFileUpload sample_runtime
            \<lparr>isProcessing = False, progress = 0, result = None, error = None\<rparr>
            (Response \<lparr>ok = True, error_body = None, blob = [0x3C, 0x68, 0x74, 0x6D, 0x6C],
                       x_optimization_report = None\<rparr>))
     = None"
  using upload_accepts_only_pk_blobs
    [of sample_runtime
        "\<lparr>isProcessing = False, progress = 0, result = None, error = None\<rparr>"
        "Response \<lparr>ok = True, error_body = None, blob = [0x3C, 0x68, 0x74, 0x6D, 0x6C],
                   x_optimization_report = None\<rparr>",
     THEN conjunct2, THEN spec,
     of "\<lparr>ok = True, error_body = None, blob = [0x3C, 0x68, 0x74, 0x6D, 0x6C],
          x_optimization_report = None\<rparr>"]
  by simp

text \<open>
  C10. A drop forwards at most one file to \<^verbatim>\<open>onFileUpload\<close>: the first accepted file,
  and nothing when no file was accepted. The dropzone is configured for the two ZIP MIME
  types with the extension \<^verbatim>\<open>.zip\<close>, a size limit of \<open>100 * 1024 * 1024\<close> bytes and
  single selection.
\<close>

theorem onDrop_forwards_first_file:
  "snd (onDrop uploadedFiles acceptedFiles) = take 1 acceptedFiles \<and>
   length (snd (onDrop uploadedFiles acceptedFiles)) \<le> 1 \<and>
   (acceptedFiles = [] \<longrightarrow> onDrop uploadedFiles acceptedFiles = (uploadedFiles, [])) \<and>
   (acceptedFiles \<noteq> [] \<longrightarrow>
      onDrop uploadedFiles acceptedFiles = (uploadedFiles @ [hd acceptedFiles], [hd acceptedFiles])) \<and>
   map fst (accept dropzoneOptions) = [''application/zip'', ''application/x-zip-compressed''] \<and>
   (\<forall>(m, exts) \<in> set (accept dropzoneOptions). exts = [''.zip'']) \<and>
   maxSize dropzoneOptions = 100 * 1024 * 1024 \<and>
   maxSize dropzoneOptions = 104857600 \<and>
   \<not> multiple dropzoneOptions"
  by (cases acceptedFiles) (simp_all add: onDrop_def dropzoneOptions_def)

theorem onDrop_forwards_first_file_witness:
  "onDrop [] [\<lparr>name = ''site.zip'', file_size = 2048, mime_type = ''application/zip''\<rparr>,
              \<lparr>name = ''other.zip'', file_size = 10, mime_type = ''application/zip''\<rparr>]
     = ([\<lparr>name = ''site.zip'', file_size = 2048, mime_type = ''application/zip''\<rparr>],
        [\<lparr>name = ''site.zip'', file_size = 2048, mime_type = ''application/zip''\<rparr>]) \<and>
   onDrop [\<lparr>name = ''old.zip'', file_size = 1, mime_type = ''application/zip''\<rparr>] []
     = ([\<lparr>name = ''old.zip'', file_size = 1, mime_type = ''application/zip''\<rparr>], [])"
  using onDrop_forwards_first_file
    [of "[]" "[\<lparr>name = ''site.zip'', file_size = 2048, mime_type = ''application/zip''\<rparr>,
               \<lparr>name = ''other.zip'', file_size = 10, mime_type = ''application/zip''\<rparr>]"]
    onDrop_forwards_first_file
    [of "[\<lparr>name = ''old.zip'', file_size = 1, mime_type = ''application/zip''\<rparr>]" "[]"]
  by simp

text \<open>
  C2, as the specification words it: the names the consumers read are \<^verbatim>\<open>totalFiles\<close>,
  \<^verbatim>\<open>sizeReductionPercent\<close>, \<^verbatim>\<open>perCategoryStats\<close> and \<^verbatim>\<open>failures\<close>. The Dashboard does not
  read them: two reports that agree on all four are shown differently.
\<close>

theorem dashboard_ignores_spec_field_names:
  "get_prop (JObject [(''totalFiles'', JNumber 3), (''sizeReductionPercent'', JNumber 50),
                      (''perCategoryStats'', JObject []), (''failures'', JArray []),
                      (''stats'', JObject [(''total_files'', JNumber 7),
                                           (''size_reduction'', JNumber 25)])]) ''totalFiles''
     = get_prop (JObject [(''totalFiles'', JNumber 3), (''sizeReductionPercent'', JNumber 50),
                          (''perCategoryStats'', JObject []), (''failures'', JArray [])]) ''totalFiles'' \<and>
   get_prop (JObject [(''totalFiles'', JNumber 3), (''sizeReductionPercent'', JNumber 50),
                      (''perCategoryStats'', JObject []), (''failures'', JArray []),
                      (''stats'', JObject [(''total_files'', JNumber 7),
                                           (''size_reduction'', JNumber 25)])]) ''sizeReductionPercent''
     = get_prop (JObject [(''totalFiles'', JNumber 3), (''sizeReductionPercent'', JNumber 50),
                          (''perCategoryStats'', JObject []), (''failures'', JArray [])]) ''sizeReductionPercent'' \<and>
   get_prop (JObject [(''totalFiles'', JNumber 3), (''sizeReductionPercent'', JNumber 50),
                      (''perCategoryStats'', JObject []), (''failures'', JArray []),
                      (''stats'', JObject [(''total_files'', JNumber 7),
                                           (''size_reduction'', JNumber 25)])]) ''perCategoryStats''
     = get_prop (JObject [(''totalFiles'', JNumber 3), (''sizeReductionPercent'', JNumber 50),
                          (''perCategoryStats'', JObject []), (''failures'', JArray [])]) ''perCategoryStats'' \<and>
   get_prop (JObject [(''totalFiles'', JNumber 3), (''sizeReductionPercent'', JNumber 50),
                      (''perCategoryStats'', JObject []), (''failures'', JArray []),
                      (''stats'', JObject [(''total_files'', JNumber 7),
                                           (''size_reduction'', JNumber 25)])]) ''failures''
     = get_prop (JObject [(''totalFiles'', JNumber 3), (''sizeReductionPercent'', JNumber 50),
                          (''perCategoryStats'', JObject []), (''failures'', JArray [])]) ''failures'' \<and>
   reportView (JObject [(''totalFiles'', JNumber 3), (''sizeReductionPercent'', JNumber 50),
                        (''perCategoryStats'', JObject []), (''failures'', JArray []),
                        (''stats'', JObject [(''total_files'', JNumber 7),
                                             (''size_reduction'', JNumber 25)])])
     = Some (Shown (JNumber 7), Fixed2Percent 25) \<and>
   reportView (JObject [(''totalFiles'', JNumber 3), (''sizeReductionPercent'', JNumber 50),
                        (''perCategoryStats'', JObject []), (''failures'', JArray [])])
     = Some (Text ''N/A'', Text ''N/A'')"
  by (simp add: reportView_def filesProcessedCell_def sizeReductionCell_def stats_field_def)

lemma map_of_filter_key:
  "map_of (filter (\<lambda>(k, v). k = a) kvs) a = map_of kvs a"
  by (induction kvs) auto

lemma get_prop_only_member:
  "get_prop (JObject (filter (\<lambda>(k, v). k = a) kvs)) a = get_prop (JObject kvs) a"
  by (simp add: rev_filter map_of_filter_key)

text \<open>
  C2, amended: the report reaches the Dashboard as the JSON of the
  \<^verbatim>\<open>X-Optimization-Report\<close> header, next to the archive blob of the same response. The
  Dashboard reads the member \<^verbatim>\<open>stats\<close> of the report and nothing else of it: the Files
  Processed cell shows \<^verbatim>\<open>stats.total_files\<close> when that is truthy, the Size Reduction cell
  formats \<^verbatim>\<open>stats.size_reduction\<close> when that is a truthy number, and each shows
  \<^verbatim>\<open>N/A\<close> when \<^verbatim>\<open>stats\<close> or its field is missing. So both cells stay as they are
  when every member of the report but \<^verbatim>\<open>stats\<close> is taken away, \<^verbatim>\<open>totalFiles\<close> and
  \<^verbatim>\<open>sizeReductionPercent\<close> among them, and reports with the same \<^verbatim>\<open>stats\<close> are shown
  alike.
\<close>

theorem dashboard_reads_stats_fields:
  "(ok r \<and> verifyZipFile (blob r) \<and> x_optimization_report r = Some h \<and> h \<noteq> [] \<and>
    JSON_parse js h = Inr rep \<longrightarrow>
      result (handleFileUpload js st (Response r))
        = Some \<lparr>download_url = blob r, report = rep, message = ''Optimization complete!''\<rparr>) \<and>
   (get_prop rep ''stats'' = None \<longrightarrow>
      filesProcessedCell rep = Text ''N/A'' \<and> sizeReductionCell rep = Text ''N/A'') \<and>
   (get_prop rep ''stats'' = Some s \<longrightarrow>
      filesProcessedCell rep
        = (case get_prop s ''total_files'' of
             None \<Rightarrow> Text ''N/A''
           | Some v \<Rightarrow> if truthy v then Shown v else Text ''N/A'') \<and>
      sizeReductionCell rep
        = (case get_prop s ''size_reduction'' of
             None \<Rightarrow> Text ''N/A''
           | Some v \<Rightarrow>
               if truthy v then (case v of JNumber n \<Rightarrow> Fixed2Percent n | _ \<Rightarrow> RenderError)
               else Text ''N/A'')) \<and>
   (get_prop rep ''stats'' = get_prop rep' ''stats'' \<longrightarrow>
      filesProcessedCell rep = filesProcessedCell rep' \<and>
      sizeReductionCell rep = sizeReductionCell rep') \<and>
   filesProcessedCell (JObject (filter (\<lambda>(k, v). k = ''stats'') kvs))
     = filesProcessedCell (JObject kvs) \<and>
   sizeReductionCell (JObject (filter (\<lambda>(k, v). k = ''stats'') kvs))
     = sizeReductionCell (JObject kvs)"
proof (intro conjI impI)
  assume "ok r \<and> verifyZipFile (blob r) \<and> x_optimization_report r = Some h \<and> h \<noteq> [] \<and>
          JSON_parse js h = Inr rep"
  then show "result (handleFileUpload js st (Response r))
        = Some \<lparr>download_url = blob r, report = rep, message = ''Optimization complete!''\<rparr>"
    by (simp add: handleFileUpload_def Let_def)
next
  assume "get_prop rep ''stats'' = None"
  then show "filesProcessedCell rep = Text ''N/A''" and "sizeReductionCell rep = Text ''N/A''"
    by (simp_all add: filesProcessedCell_def sizeReductionCell_def stats_field_def)
next
  assume st: "get_prop rep ''stats'' = Some s"
  have f: "stats_field rep k = get_prop s k" for k
    using st by (cases s) (simp_all add: stats_field_def)
  show "filesProcessedCell rep
        = (case get_prop s ''total_files'' of
             None \<Rightarrow> Text ''N/A''
           | Some v \<Rightarrow> if truthy v then Shown v else Text ''N/A'')"
    by (simp add: filesProcessedCell_def f)
  show "sizeReductionCell rep
        = (case get_prop s ''size_reduction'' of
             None \<Rightarrow> Text ''N/A''
           | Some v \<Rightarrow>
               if truthy v then (case v of JNumber n \<Rightarrow> Fixed2Percent n | _ \<Rightarrow> RenderError)
               else Text ''N/A'')"
    by (simp add: sizeReductionCell_def f)
next
  assume "get_prop rep ''stats'' = get_prop rep' ''stats''"
  then show "filesProcessedCell rep = filesProcessedCell rep'"
    and "sizeReductionCell rep = sizeReductionCell rep'"
    by (simp_all add: filesProcessedCell_def sizeReductionCell_def stats_field_def)
next
  show "filesProcessedCell (JObject (filter (\<lambda>(k, v). k = ''stats'') kvs))
          = filesProcessedCell (JObject kvs)"
    unfolding filesProcessedCell_def stats_field_def get_prop_only_member ..
  show "sizeReductionCell (JObject (filter (\<lambda>(k, v). k = ''stats'') kvs))
          = sizeReductionCell (JObject kvs)"
    unfolding sizeReductionCell_def stats_field_def get_prop_only_member ..
qed

theorem dashboard_reads_stats_fields_witness:
  \<open>result (handleFileUpload sample_runtime
             \<lparr>isProcessing = False, progress = 0, result = None, error = None\<rparr>
             (Response \<lparr>ok = True, error_body = None, blob = [0x50, 0x4B, 0x03, 0x04],
                        x_optimization_report
                          = Some ''{"stats":{"total_files":7,"size_reduction":25}}''\<rparr>))
     = Some \<lparr>download_url = [0x50, 0x4B, 0x03, 0x04],
             report = JObject [(''stats'', JObject [(''total_files'', JNumber 7),
                                                    (''size_reduction'', JNumber 25)])],
             message = ''Optimization complete!''\<rparr> \<and>
   filesProcessedCell (JObject [(''stats'', JObject [(''total_files'', JNumber 7),
                                                     (''size_reduction'', JNumber 25)])])
     = Shown (JNumber 7) \<and>
   sizeReductionCell (JObject [(''stats'', JObject [(''total_files'', JNumber 7),
                                                    (''size_reduction'', JNumber 25)])])
     = Fixed2Percent 25 \<and>
   filesProcessedCell (JObject [(''totalFiles'', JNumber 99), (''sizeReductionPercent'', JNumber 40)])
     = Text ''N/A'' \<and>
   sizeReductionCell (JObject [(''totalFiles'', JNumber 99), (''sizeReductionPercent'', JNumber 40)])
     = Text ''N/A'' \<and>
   filesProcessedCell (JObject [(''totalFiles'', JNumber 99),
                                (''stats'', JObject [(''total_files'', JNumber 7),
                                                     (''size_reduction'', JNumber 25)])])
     = filesProcessedCell (JObject [(''stats'', JObject [(''total_files'', JNumber 7),
                                                         (''size_reduction'', JNumber 25)])])\<close>
proof -
  let ?stats = "JObject [(''stats'', JObject [(''total_files'', JNumber 7),
                                              (''size_reduction'', JNumber 25)])]"
  let ?spec = "JObject [(''totalFiles'', JNumber 99), (''sizeReductionPercent'', JNumber 40)]"
  let ?both = "JObject [(''totalFiles'', JNumber 99),
                        (''stats'', JObject [(''total_files'', JNumber 7),
                                             (''size_reduction'', JNumber 25)])]"
  note upload = dashboard_reads_stats_fields
    [where r = \<open>\<lparr>ok = True, error_body = None, blob = [0x50, 0x4B, 0x03, 0x04],
                  x_optimization_report
                    = Some ''{"stats":{"total_files":7,"size_reduction":25}}''\<rparr>\<close>
       and h = \<open>''{"stats":{"total_files":7,"size_reduction":25}}''\<close>
       and js = sample_runtime and rep = ?stats
       and st = \<open>\<lparr>isProcessing = False, progress = 0, result = None, error = None\<rparr>\<close>
       and s = \<open>JObject [(''total_files'', JNumber 7), (''size_reduction'', JNumber 25)]\<close>
       and rep' = ?both]
  note missing = dashboard_reads_stats_fields [where rep = ?spec]
  have parsed: \<open>JSON_parse sample_runtime ''{"stats":{"total_files":7,"size_reduction":25}}''
                  = Inr ?stats\<close>
    by (simp add: sample_runtime_def)
  have stored: \<open>result (handleFileUpload sample_runtime
             \<lparr>isProcessing = False, progress = 0, result = None, error = None\<rparr>
             (Response \<lparr>ok = True, error_body = None, blob = [0x50, 0x4B, 0x03, 0x04],
                        x_optimization_report
                          = Some ''{"stats":{"total_files":7,"size_reduction":25}}''\<rparr>))
     = Some \<lparr>download_url = [0x50, 0x4B, 0x03, 0x04], report = ?stats,
             message = ''Optimization complete!''\<rparr>\<close>
    using upload [THEN conjunct1] parsed by (simp add: verifyZipFile_def)
  have shown: "filesProcessedCell ?stats = Shown (JNumber 7)"
    "sizeReductionCell ?stats = Fixed2Percent 25"
    using upload [THEN conjunct2, THEN conjunct2, THEN conjunct1] by simp_all
  have na: "filesProcessedCell ?spec = Text ''N/A''" "sizeReductionCell ?spec = Text ''N/A''"
    using missing [THEN conjunct2, THEN conjunct1] by simp_all
  have same: "filesProcessedCell ?both = filesProcessedCell ?stats"
    using upload [THEN conjunct2, THEN conjunct2, THEN conjunct2, THEN conjunct1] by simp
  from stored shown na same show ?thesis by simp
qed

section \<open>Properties of the pipeline\<close>

subsection \<open>The aggregator's fold\<close>

lemma foldl_add_outcome_counts:
  "totalFiles (foldl add_outcome r outs) = totalFiles r + length outs \<and>
   filesOptimized (foldl add_outcome r outs)
     = filesOptimized r + length (filter (\<lambda>out. status out = Success) outs) \<and>
   filesFailed (foldl add_outcome r outs)
     = filesFailed r + length (filter (\<lambda>out. status out = Failed) outs) \<and>
   filesSkipped (foldl add_outcome r outs)
     = filesSkipped r + length (filter (\<lambda>out. status out = Skipped) outs)"
  by (induction outs arbitrary: r) (simp_all add: add_outcome_def)

lemma foldl_add_outcome_bytes:
  "totalOriginalBytes (foldl add_outcome r outs)
     = totalOriginalBytes r + sum_list (map originalSize outs) \<and>
   totalOptimizedBytes (foldl add_outcome r outs)
     = totalOptimizedBytes r + sum_list (map optimizedSize outs)"
  by (induction outs arbitrary: r) (simp_all add: add_outcome_def)

lemma foldl_add_outcome_failures:
  "failures (foldl add_outcome r outs)
     = failures r @ map (\<lambda>out. (outcome_path out, errorDetail out))
                      (filter (\<lambda>out. status out = Failed) outs)"
  by (induction outs arbitrary: r) (simp_all add: add_outcome_def)

lemma status_partition:
  "length (filter (\<lambda>out. status out = Success) outs)
   + length (filter (\<lambda>out. status out = Failed) outs)
   + length (filter (\<lambda>out. status out = Skipped) outs) = length outs"
proof (induction outs)
  case Nil
  show ?case by simp
next
  case (Cons out outs)
  then show ?case by (cases "status out") simp_all
qed

lemma reduction_percent_total:
  "reduction_percent original optimized
     = Some (if original = 0 then 0
             else (rat_of_nat original - rat_of_nat optimized) / rat_of_nat original * 100)"
  by (simp add: reduction_percent_def checked_div_def)

lemma aggregate_Some:
  "aggregate outs =
     Some ((foldl add_outcome empty_report outs)
             \<lparr>sizeReductionPercent :=
                (if sum_list (map originalSize outs) = 0 then 0
                 else (rat_of_nat (sum_list (map originalSize outs))
                       - rat_of_nat (sum_list (map optimizedSize outs)))
                      / rat_of_nat (sum_list (map originalSize outs)) * 100)\<rparr>)"
  by (simp add: aggregate_def finalize_def reduction_percent_total foldl_add_outcome_bytes
        empty_report_def)

subsection \<open>The writer's order\<close>

lemma in_archive_order_complete:
  assumes d: "distinct (map fst tagged)"
    and n: "length tagged = n"
    and g: "\<forall>(i, out) \<in> set tagged. i < n \<and> out = g i"
  shows "in_archive_order tagged = map g [0..<n]"
proof -
  let ?ys = "sort_key fst tagged"
  have inj: "inj_on fst (set tagged)" and dt: "distinct tagged"
    using d by (simp_all add: distinct_map)
  have "distinct (map fst ?ys)"
    using inj dt by (simp add: distinct_map)
  moreover have "sorted (map fst ?ys)"
    by (rule sorted_sort_key)
  moreover have "set (map fst ?ys) = {0..<n}"
  proof (rule card_subset_eq)
    show "finite {0..<n}" by simp
    show "set (map fst ?ys) \<subseteq> {0..<n}" using g by auto
    have "card (set (map fst ?ys)) = length (map fst ?ys)"
      using \<open>distinct (map fst ?ys)\<close> by (rule distinct_card)
    then show "card (set (map fst ?ys)) = card {0..<n}" using n by simp
  qed
  ultimately have keys: "map fst ?ys = [0..<n]"
    by (intro sorted_distinct_set_unique) simp_all
  have "map snd ?ys = map (\<lambda>y. g (fst y)) ?ys"
    using g by (intro map_cong) auto
  also have "\<dots> = map g (map fst ?ys)" by simp
  finally show ?thesis by (simp add: in_archive_order_def keys)
qed

subsection \<open>The batch invariant\<close>

lemma read_archive_nonempty: "read_archive cfg stream = Inr fs \<Longrightarrow> fs \<noteq> []"
  by (auto simp: read_archive_def Let_def split: archive_stream.splits if_splits)

lemma start_well_collected: "well_collected env (start cfg stream pending_batch)"
  by (auto simp: well_collected_def start_def pending_batch_def
           dest: read_archive_nonempty split: sum.splits)

lemma step_well_collected:
  assumes "well_collected env b"
  shows "well_collected env (step env b ev)"
proof (cases "phase b = Running")
  case False
  then show ?thesis using assms by (simp add: step_def)
next
  case True
  show ?thesis
  proof (cases ev)
    case DeadlineExceeded
    then show ?thesis using assms True by (simp add: step_def well_collected_def)
  next
    case (TaskDone i)
    show ?thesis
    proof (cases "i < length (files b) \<and> i \<notin> set (map fst (collected b))")
      case False
      then show ?thesis using assms True TaskDone by (auto simp: step_def)
    next
      case fresh: True
      then show ?thesis using assms True TaskDone
        by (auto simp: step_def well_collected_def Let_def)
    qed
  qed
qed

lemma run_well_collected: "well_collected env (run cfg env events stream)"
proof -
  have "well_collected env (foldl (step env) b events)" if "well_collected env b" for b
    using that by (induction events arbitrary: b) (simp_all add: step_well_collected)
  then show ?thesis by (simp add: run_def start_well_collected)
qed

lemma step_files: "files (step env b ev) = files b"
  by (simp add: step_def Let_def split: event.splits)

lemma run_files: "files (run cfg env events stream) = files (start cfg stream pending_batch)"
proof -
  have "files (foldl (step env) b events) = files b" for b
    by (induction events arbitrary: b) (simp_all add: step_files)
  then show ?thesis by (simp add: run_def)
qed

lemma start_files:
  "files (start cfg stream pending_batch)
     = (case read_archive cfg stream of Inl e \<Rightarrow> [] | Inr fs \<Rightarrow> fs)"
  by (simp add: start_def pending_batch_def split: sum.splits)

lemma completed_outcomes:
  assumes "phase (run cfg env events stream) = Completed"
  shows "in_archive_order (collected (run cfg env events stream))
           = map (process_file env) (files (run cfg env events stream))"
proof -
  let ?b = "run cfg env events stream"
  have w: "well_collected env ?b" by (rule run_well_collected)
  have "in_archive_order (collected ?b)
          = map (\<lambda>i. process_file env (files ?b ! i)) [0..<length (files ?b)]"
    using w assms by (intro in_archive_order_complete) (auto simp: well_collected_def)
  also have "\<dots> = map (process_file env) (files ?b)"
    by (simp add: map_nth flip: map_map [unfolded comp_def])
  finally show ?thesis .
qed


subsection \<open>Terminal phases absorb\<close>

lemma step_not_running: "phase b \<noteq> Running \<Longrightarrow> step env b ev = b"
  by (simp add: step_def)

lemma foldl_step_not_running: "phase b \<noteq> Running \<Longrightarrow> foldl (step env) b events = b"
  by (induction events) (simp_all add: step_not_running)

lemma run_rejected:
  assumes "read_archive cfg stream = Inl e"
  shows "run cfg env events stream
           = pending_batch\<lparr>phase := (if e = ArchiveTooLarge then Aborted else Pending),
                           fault := Some e\<rparr>"
  using assms by (simp add: run_def start_def foldl_step_not_running)

lemma run_completed_reader:
  assumes "phase (run cfg env events stream) = Completed"
  shows "\<exists>fs. read_archive cfg stream = Inr fs \<and> files (run cfg env events stream) = fs"
proof (cases "read_archive cfg stream")
  case (Inl e)
  then show ?thesis using assms by (simp add: run_rejected pending_batch_def split: if_splits)
next
  case (Inr fs)
  then show ?thesis by (simp add: run_files start_files)
qed

lemma deliver_Inr_completed:
  "deliver b = Some (Inr out) \<Longrightarrow> phase b = Completed"
  by (cases "phase b") (auto simp: deliver_def)

lemma deliver_completed:
  assumes "phase (run cfg env events stream) = Completed"
  shows "\<exists>fs rep. read_archive cfg stream = Inr fs \<and>
           aggregate (map (process_file env) fs) = Some rep \<and>
           optimize_archive cfg env events stream
             = Some (Inr (write_archive (map (process_file env) fs), rep))"
proof -
  obtain fs where fs: "read_archive cfg stream = Inr fs" "files (run cfg env events stream) = fs"
    using run_completed_reader [OF assms] by blast
  have outs: "in_archive_order (collected (run cfg env events stream)) = map (process_file env) fs"
    using completed_outcomes [OF assms] fs by simp
  obtain rep where agg: "aggregate (map (process_file env) fs) = Some rep"
    using aggregate_Some by blast
  have "optimize_archive cfg env events stream
          = Some (Inr (write_archive (map (process_file env) fs), rep))"
    unfolding optimize_archive_def deliver_def using assms outs agg by (simp add: Let_def)
  then show ?thesis using fs agg by blast
qed

lemma delivered_archive:
  assumes "optimize_archive cfg env events stream = Some (Inr (archive, rep))"
  shows "\<exists>fs. read_archive cfg stream = Inr fs \<and>
           archive = write_archive (map (process_file env) fs) \<and>
           aggregate (map (process_file env) fs) = Some rep"
proof -
  have "phase (run cfg env events stream) = Completed"
    using assms by (auto simp: optimize_archive_def dest: deliver_Inr_completed)
  from deliver_completed [OF this] assms show ?thesis by auto
qed

subsection \<open>One file\<close>

lemma process_file_path: "outcome_path (process_file env f) = path f"
  by (simp add: process_file_def passthrough_def Let_def
           split: invocation.splits status.splits)

lemma process_file_sizes:
  "originalSize (process_file env f) = length (bytes f) \<and>
   optimizedSize (process_file env f) = length (outputBytes (process_file env f))"
  by (simp add: process_file_def passthrough_def Let_def
           split: invocation.splits status.splits)

lemma process_file_keeps_bytes:
  "status (process_file env f) \<noteq> Success \<Longrightarrow> outputBytes (process_file env f) = bytes f"
  by (simp add: process_file_def passthrough_def Let_def
           split: invocation.splits status.splits if_splits)

text \<open>
  C1. When an archive is processed to completion, every SourceFile has exactly one
  outcome (as many outcomes are collected as there are files, no position twice, and
  put in archive order they are the files' outcomes one for one); the
  report satisfies \<open>filesOptimized + filesFailed + filesSkipped = totalFiles\<close>; and the
  output archive has one entry per SourceFile, under the same paths in the same order,
  a failed file with its original bytes. So the number of entries is \<open>totalFiles\<close>.
\<close>

theorem every_file_accounted_for:
  assumes "optimize_archive cfg env events stream = Some (Inr (archive, rep))"
  shows "\<exists>fs. read_archive cfg stream = Inr fs \<and>
           length (collected (run cfg env events stream)) = length fs \<and>
           distinct (map fst (collected (run cfg env events stream))) \<and>
           in_archive_order (collected (run cfg env events stream)) = map (process_file env) fs \<and>
           totalFiles rep = length fs \<and>
           filesOptimized rep + filesFailed rep + filesSkipped rep = totalFiles rep \<and>
           length archive = totalFiles rep \<and>
           map fst archive = map path fs \<and>
           (\<forall>i < length fs. status (process_file env (fs ! i)) = Failed \<longrightarrow>
                archive ! i = (path (fs ! i), bytes (fs ! i)))"
proof -
  obtain fs where fs: "read_archive cfg stream = Inr fs"
    and arch: "archive = write_archive (map (process_file env) fs)"
    and agg: "aggregate (map (process_file env) fs) = Some rep"
    using delivered_archive [OF assms] by blast
  have fin: "phase (run cfg env events stream) = Completed"
    using assms by (auto simp: optimize_archive_def dest: deliver_Inr_completed)
  have fsb: "files (run cfg env events stream) = fs"
    using fs by (simp add: run_files start_files)
  have once: "length (collected (run cfg env events stream)) = length fs"
    "distinct (map fst (collected (run cfg env events stream)))"
    using run_well_collected [of env cfg events stream] fin fsb
    by (simp_all add: well_collected_def)
  from fsb completed_outcomes [OF fin]
  have outs: "in_archive_order (collected (run cfg env events stream)) = map (process_file env) fs"
    by simp
  have total: "totalFiles rep = length fs"
    using agg by (auto simp: aggregate_Some foldl_add_outcome_counts empty_report_def)
  have counts: "filesOptimized rep + filesFailed rep + filesSkipped rep = totalFiles rep"
    using agg status_partition [of "map (process_file env) fs"]
    by (auto simp: aggregate_Some foldl_add_outcome_counts empty_report_def)
  have len: "length archive = totalFiles rep"
    by (simp add: arch write_archive_def total)
  have paths: "map fst archive = map path fs"
    by (simp add: arch write_archive_def process_file_path comp_def)
  have failed: "archive ! i = (path (fs ! i), bytes (fs ! i))"
    if "i < length fs" "status (process_file env (fs ! i)) = Failed" for i
    using that by (simp add: arch write_archive_def process_file_path process_file_keeps_bytes)
  show ?thesis using fs once outs total counts len paths failed by blast
qed

lemma sample_read:
  "read_archive default_config sample_archive =
     Inr [\<lparr>path = ''css/a.css'', bytes = [0x61, 0x20, 0x7B, 0x20, 0x7D], declaredType = None\<rparr>,
          \<lparr>path = ''b.scss'', bytes = [0x7B, 0x20], declaredType = None\<rparr>,
          \<lparr>path = ''README'', bytes = [0x20, 0x20, 0x41], declaredType = None\<rparr>]"
  by (simp add: read_archive_def sample_archive_def default_config_def cumulative_size_def
        escapes_root_def to_source_def)

lemma sample_phase:
  "phase (run default_config sample_plugins [TaskDone 2, TaskDone 0, TaskDone 1] sample_archive)
     = Completed"
  by (simp add: run_def start_def sample_read pending_batch_def step_def)

theorem every_file_accounted_for_witness:
  "\<exists>archive rep.
     optimize_archive default_config sample_plugins [TaskDone 2, TaskDone 0, TaskDone 1]
       sample_archive = Some (Inr (archive, rep)) \<and>
     totalFiles rep = 3 \<and>
     filesOptimized rep + filesFailed rep + filesSkipped rep = 3 \<and>
     length archive = 3 \<and>
     map fst archive = [''css/a.css'', ''b.scss'', ''README''] \<and>
     archive ! 1 = (''b.scss'', [0x7B, 0x20])"
proof -
  obtain archive rep where h:
    "optimize_archive default_config sample_plugins [TaskDone 2, TaskDone 0, TaskDone 1]
       sample_archive = Some (Inr (archive, rep))"
    using deliver_completed [OF sample_phase] by blast
  have failed: "status (process_file sample_plugins
                  \<lparr>path = ''b.scss'', bytes = [0x7B, 0x20], declaredType = None\<rparr>) = Failed"
    by (simp add: process_file_def category_of_def classify_def ends_with_def
          sample_plugins_def passthrough_def)
  from every_file_accounted_for [OF h] failed
  have "totalFiles rep = 3 \<and>
        filesOptimized rep + filesFailed rep + filesSkipped rep = 3 \<and>
        length archive = 3 \<and>
        map fst archive = [''css/a.css'', ''b.scss'', ''README''] \<and>
        archive ! 1 = (''b.scss'', [0x7B, 0x20])"
    by (auto simp: sample_read)
  with h show ?thesis by (intro exI [of _ archive] exI [of _ rep]) simp
qed

subsection \<open>Complete schedules\<close>

lemma step_TaskDone_fresh:
  assumes "phase b = Running" "i < length (files b)" "i \<notin> set (map fst (collected b))"
  shows "step env b (TaskDone i)
           = b\<lparr>collected := collected b @ [(i, process_file env (files b ! i))],
               phase := (if Suc (length (collected b)) = length (files b)
                         then Completed else Running)\<rparr>"
  using assms by (simp add: step_def Let_def)

lemma complete_schedule_completes:
  assumes "well_collected env b" "phase b = Running" "distinct order"
    and "set order \<inter> set (map fst (collected b)) = {}"
    and "set order \<subseteq> {0..<length (files b)}"
    and "length (collected b) + length order = length (files b)"
  shows "phase (foldl (step env) b (map TaskDone order)) = Completed"
  using assms
proof (induction order arbitrary: b)
  case Nil
  then show ?case by (simp add: well_collected_def)
next
  case (Cons i rest)
  note IH = Cons.IH and prems = Cons.prems
  let ?b' = "step env b (TaskDone i)"
  have fresh: "i < length (files b)" "i \<notin> set (map fst (collected b))"
    using Cons.prems by auto
  have b': "?b' = b\<lparr>collected := collected b @ [(i, process_file env (files b ! i))],
                     phase := (if Suc (length (collected b)) = length (files b)
                               then Completed else Running)\<rparr>"
    using prems(2) fresh by (rule step_TaskDone_fresh)
  show ?case
  proof (cases rest)
    case Nil
    then show ?thesis using prems(6) by (simp add: b')
  next
    case (Cons j more)
    have "well_collected env ?b'"
      using prems(1) by (rule step_well_collected)
    moreover have "phase ?b' = Running" using Cons prems(6) by (simp add: b')
    moreover have "distinct rest" using prems(3) by simp
    moreover have "set rest \<inter> set (map fst (collected ?b')) = {}"
      using prems(3,4) by (auto simp: b')
    moreover have "set rest \<subseteq> {0..<length (files ?b')}"
      using prems(5) by (simp add: b')
    moreover have "length (collected ?b') + length rest = length (files ?b')"
      using prems(6) by (simp add: b')
    ultimately have "phase (foldl (step env) ?b' (map TaskDone rest)) = Completed"
      by (rule IH)
    then show ?thesis by simp
  qed
qed

lemma complete_run_completes:
  assumes "read_archive cfg stream = Inr fs" "distinct order" "set order = {0..<length fs}"
  shows "phase (run cfg env (map TaskDone order) stream) = Completed"
proof -
  let ?b = "start cfg stream pending_batch"
  have b: "?b = pending_batch\<lparr>phase := Running, files := fs\<rparr>"
    using assms(1) by (simp add: start_def)
  have n: "length order = length fs"
    using distinct_card [OF assms(2)] assms(3) by simp
  have "well_collected env ?b" by (rule start_well_collected)
  moreover have "phase ?b = Running" by (simp add: b)
  moreover note assms(2)
  moreover have "set order \<inter> set (map fst (collected ?b)) = {}"
    unfolding b by (simp add: pending_batch_def)
  moreover have "set order \<subseteq> {0..<length (files ?b)}"
    using assms(3) by (simp add: b)
  moreover have "length (collected ?b) + length order = length (files ?b)"
    unfolding b using n by (simp add: pending_batch_def)
  ultimately have "phase (foldl (step env) ?b (map TaskDone order)) = Completed"
    by (rule complete_schedule_completes)
  then show ?thesis by (simp add: run_def)
qed

text \<open>
  C4. Two runs on the same archive with the same configuration and transforms that both
  deliver, deliver the same output archive and the same report, whatever the order in
  which their tasks completed. Every complete schedule delivers, and the entries of the
  output archive stand in the order of the input listing: the Writer puts the outcomes
  back into archive order.
\<close>

theorem output_independent_of_completion_order:
  "(optimize_archive cfg env events1 stream = Some (Inr out1) \<and>
    optimize_archive cfg env events2 stream = Some (Inr out2) \<longrightarrow> out1 = out2) \<and>
   (read_archive cfg stream = Inr fs \<and>
    distinct order1 \<and> set order1 = {0..<length fs} \<and>
    distinct order2 \<and> set order2 = {0..<length fs} \<longrightarrow>
      optimize_archive cfg env (map TaskDone order1) stream
        = optimize_archive cfg env (map TaskDone order2) stream \<and>
      (\<exists>rep. optimize_archive cfg env (map TaskDone order1) stream
               = Some (Inr (write_archive (map (process_file env) fs), rep))) \<and>
      map fst (write_archive (map (process_file env) fs)) = map path fs)"
proof (intro conjI impI)
  assume "optimize_archive cfg env events1 stream = Some (Inr out1) \<and>
          optimize_archive cfg env events2 stream = Some (Inr out2)"
  then have 1: "optimize_archive cfg env events1 stream = Some (Inr (fst out1, snd out1))"
    and 2: "optimize_archive cfg env events2 stream = Some (Inr (fst out2, snd out2))"
    by simp_all
  from delivered_archive [OF 1] delivered_archive [OF 2]
  have "fst out1 = fst out2 \<and> snd out1 = snd out2" by auto
  then show "out1 = out2" by (simp add: prod_eq_iff)
next
  assume a: "read_archive cfg stream = Inr fs \<and>
    distinct order1 \<and> set order1 = {0..<length fs} \<and>
    distinct order2 \<and> set order2 = {0..<length fs}"
  then have "phase (run cfg env (map TaskDone order1) stream) = Completed"
    and "phase (run cfg env (map TaskDone order2) stream) = Completed"
    by (simp_all add: complete_run_completes)
  from deliver_completed [OF this(1)] deliver_completed [OF this(2)] a
  show "optimize_archive cfg env (map TaskDone order1) stream
          = optimize_archive cfg env (map TaskDone order2) stream"
    and "\<exists>rep. optimize_archive cfg env (map TaskDone order1) stream
               = Some (Inr (write_archive (map (process_file env) fs), rep))"
    by auto
next
  show "map fst (write_archive (map (process_file env) fs)) = map path fs"
    by (simp add: write_archive_def process_file_path comp_def)
qed

theorem output_independent_of_completion_order_witness:
  "optimize_archive default_config sample_plugins (map TaskDone [2, 0, 1]) sample_archive
     = optimize_archive default_config sample_plugins (map TaskDone [0, 1, 2]) sample_archive \<and>
   (\<exists>rep. optimize_archive default_config sample_plugins (map TaskDone [2, 0, 1]) sample_archive
      = Some (Inr ([(''css/a.css'', [0x61, 0x7B, 0x7D]), (''b.scss'', [0x7B, 0x20]),
                    (''README'', [0x20, 0x20, 0x41])], rep)))"
proof -
  let ?fs = "[\<lparr>path = ''css/a.css'', bytes = [0x61, 0x20, 0x7B, 0x20, 0x7D], declaredType = None\<rparr>,
              \<lparr>path = ''b.scss'', bytes = [0x7B, 0x20], declaredType = None\<rparr>,
              \<lparr>path = ''README'', bytes = [0x20, 0x20, 0x41], declaredType = None\<rparr>]"
  have prem: "read_archive default_config sample_archive = Inr ?fs \<and>
      distinct [2, 0, 1 :: nat] \<and> set [2, 0, 1] = {0..<length ?fs} \<and>
      distinct [0, 1, 2 :: nat] \<and> set [0, 1, 2] = {0..<length ?fs}"
    using sample_read by auto
  have w: "write_archive (map (process_file sample_plugins) ?fs)
             = [(''css/a.css'', [0x61, 0x7B, 0x7D]), (''b.scss'', [0x7B, 0x20]),
                (''README'', [0x20, 0x20, 0x41])]"
    by (simp add: write_archive_def process_file_def category_of_def classify_def ends_with_def
          sample_plugins_def passthrough_def)
  show ?thesis
    using output_independent_of_completion_order
      [where cfg = default_config and env = sample_plugins and stream = sample_archive
         and ?order1.0 = "[2, 0, 1]" and ?order2.0 = "[0, 1, 2]",
       THEN conjunct2, rule_format, OF prem]
    unfolding w by blast
qed

end
